theory Spec2Isabelle
  imports Complex_Main "HOL-Library.Word"
begin

unbundle bit_operations_syntax

section \<open>The repertoire\<close>

text \<open>
  The global \<^verbatim>\<open>std::vector<std::string> chars\<close> of \<^verbatim>\<open>bmpfont.cpp\<close> (lines 13 to 24),
  entry by entry and in the order of the source. A \<^verbatim>\<open>std::string\<close> is a sequence of bytes,
  so an entry outside ASCII is the list of the bytes of its UTF-8 encoding.
\<close>

definition chars :: "string list" where
  "chars =
    [
     [CHR '' ''], [CHR ''!''], [CHR 0x22], [CHR ''#''], [CHR ''$''], [CHR ''%''], [CHR ''&''], [CHR 0x27],
     [CHR ''(''], [CHR '')''], [CHR ''*''], [CHR ''+''], [CHR '',''], [CHR ''-''], [CHR ''.''], [CHR ''/''],
     [CHR ''0''], [CHR ''1''], [CHR ''2''], [CHR ''3''], [CHR ''4''], [CHR ''5''], [CHR ''6''], [CHR ''7''],
     [CHR ''8''], [CHR ''9''], [CHR '':''], [CHR '';''], [CHR ''<''], [CHR ''=''], [CHR ''>''], [CHR ''?''],
     [CHR ''@''], [CHR ''A''], [CHR ''B''], [CHR ''C''], [CHR ''D''], [CHR ''E''], [CHR ''F''], [CHR ''G''],
     [CHR ''H''], [CHR ''I''], [CHR ''J''], [CHR ''K''], [CHR ''L''], [CHR ''M''], [CHR ''N''], [CHR ''O''],
     [CHR ''P''], [CHR ''Q''], [CHR ''R''], [CHR ''S''], [CHR ''T''], [CHR ''U''], [CHR ''V''], [CHR ''W''],
     [CHR ''X''], [CHR ''Y''], [CHR ''Z''], [CHR ''[''], [CHR 0x5C], [CHR '']''], [CHR ''^''], [CHR ''_''],
     [CHR 0x60], [CHR ''a''], [CHR ''b''], [CHR ''c''], [CHR ''d''], [CHR ''e''], [CHR ''f''], [CHR ''g''],
     [CHR ''h''], [CHR ''i''], [CHR ''j''], [CHR ''k''], [CHR ''l''], [CHR ''m''], [CHR ''n''], [CHR ''o''],
     [CHR ''p''], [CHR ''q''], [CHR ''r''], [CHR ''s''], [CHR ''t''], [CHR ''u''], [CHR ''v''], [CHR ''w''],
     [CHR ''x''], [CHR ''y''], [CHR ''z''], [CHR ''{''], [CHR ''|''], [CHR ''}''], [CHR ''~''], [CHR 0xE1, CHR 0xB4, CHR 0x87],
     [CHR 0xE2, CHR 0x88, CHR 0x9E], [CHR 0xC3, CHR 0x97], [CHR 0xC3, CHR 0xB7], [CHR 0xC2, CHR 0xB1], [CHR 0xC2, CHR 0xB0], [CHR 0xE2, CHR 0x88, CHR 0x80], [CHR 0xE2, CHR 0x88, CHR 0x85], [CHR 0xE2, CHR 0x88, CHR 0x88],
     [CHR 0xE2, CHR 0x88, CHR 0x89], [CHR 0xE2, CHR 0x88, CHR 0x99], [CHR 0xE2, CHR 0x88, CHR 0xAB], [CHR 0xE2, CHR 0x89, CHR 0x88], [CHR 0xE2, CHR 0x89, CHR 0xA4], [CHR 0xE2, CHR 0x89, CHR 0xA5], [CHR 0xE2, CHR 0x8B, CHR 0x82], [CHR 0xE2, CHR 0x8B, CHR 0x83],
     [CHR 0xE2, CHR 0x86, CHR 0x90], [CHR 0xE2, CHR 0x86, CHR 0x91], [CHR 0xE2, CHR 0x86, CHR 0x92], [CHR 0xE2, CHR 0x86, CHR 0x93], [CHR 0xE2, CHR 0x86, CHR 0xB5], [CHR 0xE2, CHR 0xAC, CHR 0x8F], [CHR 0xCE, CHR 0xB1], [CHR 0xCE, CHR 0xB2],
     [CHR 0xCE, CHR 0x93], [CHR 0xCE, CHR 0xB3], [CHR 0xCE, CHR 0x94], [CHR 0xCE, CHR 0xB4], [CHR 0xCF, CHR 0xB5], [CHR 0xCF, CHR 0x9D], [CHR 0xCE, CHR 0xB6], [CHR 0xCE, CHR 0xB7],
     [CHR 0xCE, CHR 0x98], [CHR 0xCE, CHR 0xB8], [CHR 0xCE, CHR 0xB9], [CHR 0xCE, CHR 0xBA], [CHR 0xCE, CHR 0x9B], [CHR 0xCE, CHR 0xBB], [CHR 0xCE, CHR 0xBC], [CHR 0xCE, CHR 0xBD],
     [CHR 0xCE, CHR 0x9E], [CHR 0xCE, CHR 0xBE], [CHR 0xCE, CHR 0xA0], [CHR 0xCF, CHR 0x80], [CHR 0xCF, CHR 0x81], [CHR 0xCE, CHR 0xA3], [CHR 0xCF, CHR 0x83], [CHR 0xCF, CHR 0x84],
     [CHR 0xCF, CHR 0x85], [CHR 0xCE, CHR 0xA6], [CHR 0xCF, CHR 0x95], [CHR 0xCF, CHR 0x87], [CHR 0xCE, CHR 0xA8], [CHR 0xCF, CHR 0x88], [CHR 0xCE, CHR 0xA9], [CHR 0xCF, CHR 0x89],
     [CHR 0xE2, CHR 0x80, CHR 0xA6], [CHR 0xE2, CHR 0x96, CHR 0xAA], [CHR 0xE2, CHR 0x97, CHR 0x82], [CHR 0xE2, CHR 0x96, CHR 0xB4], [CHR 0xE2, CHR 0x96, CHR 0xB8], [CHR 0xE2, CHR 0x96, CHR 0xBE], [CHR 0xE2, CHR 0x89, CHR 0xA0], [CHR 0xE2, CHR 0x89, CHR 0xB7],
     [CHR 0xE2, CHR 0x88, CHR 0xA1], [CHR 0xC2, CHR 0xB2], [CHR 0xC2, CHR 0xB3], [CHR 0xCB, CHR 0xA3], [CHR 0xE2, CHR 0x82, CHR 0x82], [CHR 0xE2, CHR 0x84, CHR 0xB9], [CHR 0xE2, CHR 0x9F, CHR 0xAA], [CHR 0xE2, CHR 0x9F, CHR 0xAB],
     [CHR 0xE2, CHR 0xA6, CHR 0x97], [CHR 0xE2, CHR 0xA6, CHR 0x98]
    ]"

section \<open>The host: Qt's rectangle, font metrics and image\<close>

text \<open>
  \<^verbatim>\<open>QRect\<close> is a class of Qt, not of this program. Qt stores a rectangle by its corners
  \<^verbatim>\<open>x1, y1, x2, y2\<close> (both inclusive) and defines the members used by \<^verbatim>\<open>saveButton\<close> inline
  in \<^verbatim>\<open>qrect.h\<close>:
  \<^verbatim>\<open>x() = x1\<close>, \<^verbatim>\<open>width() = x2 - x1 + 1\<close>, \<^verbatim>\<open>height() = y2 - y1 + 1\<close>,
  \<^verbatim>\<open>setX(x): x1 = x\<close>, \<^verbatim>\<open>setY(y): y1 = y\<close>, \<^verbatim>\<open>setHeight(h): y2 = y1 + h - 1\<close>.
  In the words of Qt's documentation, \<^verbatim>\<open>setX\<close> "sets the left edge of the rectangle to the
  given x coordinate; may change the width, but will never change the right edge".
  The C++ \<^verbatim>\<open>int\<close>s are modelled by \<^typ>\<open>int\<close>: font metrics are small numbers, and signed
  overflow is undefined behaviour that no run with a real font reaches.
\<close>

record QRect =
  x1 :: int
  y1 :: int
  x2 :: int
  y2 :: int

definition QRect_xywh :: "int \<Rightarrow> int \<Rightarrow> int \<Rightarrow> int \<Rightarrow> QRect" where
  \<comment> \<open>the constructor \<^verbatim>\<open>QRect(left, top, width, height)\<close>\<close>
  "QRect_xywh rx ry rw rh = \<lparr>x1 = rx, y1 = ry, x2 = rx + rw - 1, y2 = ry + rh - 1\<rparr>"

definition QRect_x :: "QRect \<Rightarrow> int" where
  "QRect_x r = x1 r"

definition QRect_y :: "QRect \<Rightarrow> int" where
  "QRect_y r = y1 r"

definition QRect_width :: "QRect \<Rightarrow> int" where
  "QRect_width r = x2 r - x1 r + 1"

definition QRect_height :: "QRect \<Rightarrow> int" where
  "QRect_height r = y2 r - y1 r + 1"

definition QRect_setX :: "QRect \<Rightarrow> int \<Rightarrow> QRect" where
  "QRect_setX r v = r\<lparr>x1 := v\<rparr>"

definition QRect_setY :: "QRect \<Rightarrow> int \<Rightarrow> QRect" where
  "QRect_setY r v = r\<lparr>y1 := v\<rparr>"

definition QRect_setHeight :: "QRect \<Rightarrow> int \<Rightarrow> QRect" where
  "QRect_setHeight r h = r\<lparr>y2 := y1 r + h - 1\<rparr>"

text \<open>
  What \<^verbatim>\<open>saveButton\<close> asks of Qt for the chosen font, as one record:
  \<^item> \<open>metrics_height\<close>: \<^verbatim>\<open>metrics.height()\<close>;
  \<^item> \<open>metrics_boundingRect ch\<close>: \<^verbatim>\<open>metrics.boundingRect(QString::fromStdString(ch))\<close>;
  \<^item> \<open>metrics_horizontalAdvance ch\<close>: \<^verbatim>\<open>metrics.horizontalAdvance(...)\<close>;
  \<^item> \<open>image_pixel ch r x y\<close>: the value of \<^verbatim>\<open>image.pixel(x, y)\<close> once the image has been
    filled with white and \<^verbatim>\<open>p.drawText(r, ch)\<close> has drawn \<open>ch\<close> in black (lines 124 to 133).
    It is a function of every pair of \<^verbatim>\<open>int\<close> coordinates: what Qt answers for a coordinate
    outside the image is the host's business too.
\<close>

record host =
  metrics_height :: int
  metrics_boundingRect :: "string \<Rightarrow> QRect"
  metrics_horizontalAdvance :: "string \<Rightarrow> int"
  image_pixel :: "string \<Rightarrow> QRect \<Rightarrow> int \<Rightarrow> int \<Rightarrow> 32 word"

definition image_width :: int where
  \<comment> \<open>\<^verbatim>\<open>QImage image(100, 100, QImage::Format_ARGB32)\<close>, line 115\<close>
  "image_width = 100"

definition image_height :: int where
  "image_height = 100"

definition in_image :: "int \<Rightarrow> int \<Rightarrow> bool" where
  "in_image x y \<longleftrightarrow> 0 \<le> x \<and> x < image_width \<and> 0 \<le> y \<and> y < image_height"

definition qBlue :: "32 word \<Rightarrow> int" where
  \<comment> \<open>Qt: \<^verbatim>\<open>inline int qBlue(QRgb rgb) { return (rgb & 0xff); }\<close>\<close>
  "qBlue rgb = uint (rgb AND 0xff)"

section \<open>The packer: lines 126 to 150 of \<open>saveButton\<close>\<close>

text \<open>
  The rectangle \<open>r\<close> of the \<open>chars\<close> loop after lines 126 to 129:
  \<^verbatim>\<open>r = metrics.boundingRect(ch); r.setY(0); r.setHeight(charHeight); r.setX(0);\<close>
\<close>

definition glyph_rect :: "host \<Rightarrow> string \<Rightarrow> QRect" where
  "glyph_rect h ch =
     QRect_setX (QRect_setHeight (QRect_setY (metrics_boundingRect h ch) 0) (metrics_height h)) 0"

text \<open>
  Lines 143 to 147, the loop over the columns of one group:
  \<^verbatim>\<open>for (int x = 0; x < left; x++)
    if (qBlue(image.pixel(xByte + x, y)) < 128) value |= 1 << ((left - 1) - x);\<close>
  \<open>value\<close> is an \<^verbatim>\<open>unsigned int\<close>, a 32-bit word.
\<close>

function x_loop :: "(int \<Rightarrow> int \<Rightarrow> 32 word) \<Rightarrow> int \<Rightarrow> int \<Rightarrow> int \<Rightarrow> int \<Rightarrow> 32 word \<Rightarrow> 32 word" where
  "x_loop img xByte y left x v =
     (if x < left
      then x_loop img xByte y left (x + 1)
             (if qBlue (img (xByte + x) y) < 128
              then v OR push_bit (nat ((left - 1) - x)) 1
              else v)
      else v)"
  by pat_completeness auto
termination
  by (relation "measure (\<lambda>(img, xByte, y, left, x, v). nat (left - x))") auto

declare x_loop.simps [simp del]

text \<open>
  Lines 137 and 140 to 142: the values of \<open>xByte\<close> the loop
  \<^verbatim>\<open>for (int xByte = 0; xByte < r.x() + r.width(); xByte += 8)\<close> runs through from a given
  one on, each with the \<open>left\<close> computed for it
  (\<^verbatim>\<open>int left = r.x() + r.width() - xByte; if (left > 8) left = 8;\<close>).
\<close>

function column_groups :: "QRect \<Rightarrow> int \<Rightarrow> (int \<times> int) list" where
  "column_groups r xByte =
     (if xByte < QRect_x r + QRect_width r
      then (let left = QRect_x r + QRect_width r - xByte;
                left = (if left > 8 then 8 else left)
            in (xByte, left) # column_groups r (xByte + 8))
      else [])"
  by pat_completeness auto
termination
  by (relation "measure (\<lambda>(r, xByte). nat (QRect_x r + QRect_width r - xByte))") auto

declare column_groups.simps [simp del]

text \<open>
  One row: the loop of line 137 starts at \<open>xByte = 0\<close>, and each of its iterations passes
  one \<open>value\<close> (lines 139 and 143 to 147) to \<^verbatim>\<open>fprintf(fp, "0x%x,", value)\<close>.
\<close>

definition row_values :: "(int \<Rightarrow> int \<Rightarrow> 32 word) \<Rightarrow> QRect \<Rightarrow> int \<Rightarrow> 32 word list" where
  "row_values img r y =
     map (\<lambda>(xByte, left). x_loop img xByte y left 0 0) (column_groups r 0)"

text \<open>Line 135: \<^verbatim>\<open>for (int y = 0; y < charHeight; y++)\<close>, from a given \<open>y\<close> on.\<close>

function y_loop :: "(int \<Rightarrow> int \<Rightarrow> 32 word) \<Rightarrow> QRect \<Rightarrow> int \<Rightarrow> int \<Rightarrow> 32 word list" where
  "y_loop img r charHeight y =
     (if y < charHeight
      then row_values img r y @ y_loop img r charHeight (y + 1)
      else [])"
  by pat_completeness auto
termination
  by (relation "measure (\<lambda>(img, r, charHeight, y). nat (charHeight - y))") auto

declare y_loop.simps [simp del]

text \<open>The values written for one character, in the order of the \<^verbatim>\<open>fprintf\<close> calls.\<close>

definition glyph_bytes :: "host \<Rightarrow> string \<Rightarrow> 32 word list" where
  "glyph_bytes h ch =
     (let r = glyph_rect h ch
      in y_loop (image_pixel h ch r) r (metrics_height h) 0)"

text \<open>
  Lines 159 to 161, the number printed for a character by the \<open>width\<close> loop:
  \<^verbatim>\<open>QRect r = metrics.boundingRect(...); r.setX(0); fprintf(fp, "%d,", r.x() + r.width());\<close>
\<close>

definition width_px :: "host \<Rightarrow> string \<Rightarrow> int" where
  "width_px h ch =
     (let r = QRect_setX (metrics_boundingRect h ch) 0
      in QRect_x r + QRect_width r)"

text \<open>Line 169, the number printed by the \<open>advance\<close> loop.\<close>

definition advance_px :: "host \<Rightarrow> string \<Rightarrow> int" where
  "advance_px h ch = metrics_horizontalAdvance h ch"

section \<open>The emitter\<close>

text \<open>
  The conversions of \<^verbatim>\<open>fprintf\<close> that the program uses. \<^verbatim>\<open>%x\<close> prints an
  \<^verbatim>\<open>unsigned int\<close> in base 16 with the digits \<^verbatim>\<open>0123456789abcdef\<close>, \<^verbatim>\<open>%d\<close> prints an
  \<^verbatim>\<open>int\<close> in base 10 with a minus sign when it is negative; neither pads, and both print
  at least one digit.
\<close>

definition digit_char :: "nat \<Rightarrow> char" where
  "digit_char d = ''0123456789abcdef'' ! d"

fun digits :: "nat \<Rightarrow> nat \<Rightarrow> string" where
  "digits b n = (if n < b \<or> b < 2 then [digit_char n] else digits b (n div b) @ [digit_char (n mod b)])"

declare digits.simps [simp del]

definition printf_x :: "32 word \<Rightarrow> string" where
  "printf_x v = digits 16 (unat v)"

definition printf_d :: "int \<Rightarrow> string" where
  "printf_d i = (if i < 0 then CHR ''-'' # digits 10 (nat (- i)) else digits 10 (nat i))"

text \<open>
  Lines 134 to 151, what one iteration of the \<open>chars\<close> loop writes:
  \<^verbatim>\<open>fprintf(fp, "        &[");\<close>, then \<^verbatim>\<open>fprintf(fp, "0x%x,", value)\<close> for every value,
  then \<^verbatim>\<open>fprintf(fp, "],\n")\<close>.
\<close>

definition glyph_text :: "host \<Rightarrow> string \<Rightarrow> string" where
  "glyph_text h ch =
     ''        &['' @ concat (map (\<lambda>v. ''0x'' @ printf_x v @ '','') (glyph_bytes h ch)) @ ''],\<newline>''"

text \<open>
  Line 122, \<^verbatim>\<open>for (auto &ch : chars)\<close>. Each loop of the emitter is modelled by the list of
  what its iterations write, in order; the file holds their concatenation.
\<close>

fun chars_loop :: "host \<Rightarrow> string list \<Rightarrow> string list" where
  "chars_loop h [] = []"
| "chars_loop h (ch # rest) = glyph_text h ch # chars_loop h rest"

text \<open>Lines 157 and 158 (and 167 and 168): \<^verbatim>\<open>if ((i > 0) && ((i % 0x20) == 0)) fprintf(fp, "\n        ");\<close>\<close>

definition line_break :: "nat \<Rightarrow> string" where
  "line_break i = (if i > 0 \<and> i mod 0x20 = 0 then ''\<newline>        '' else [])"

text \<open>Lines 155 to 162, \<^verbatim>\<open>for (size_t i = 0; i < chars.size(); i++)\<close> from a given \<open>i\<close> on.\<close>

function width_loop :: "host \<Rightarrow> nat \<Rightarrow> string list" where
  "width_loop h i =
     (if i < length chars
      then (line_break i @ printf_d (width_px h (chars ! i)) @ '','') # width_loop h (i + 1)
      else [])"
  by pat_completeness auto
termination
  by (relation "measure (\<lambda>(h, i). length chars - i)") auto

declare width_loop.simps [simp del]

text \<open>Lines 165 to 170.\<close>

function advance_loop :: "host \<Rightarrow> nat \<Rightarrow> string list" where
  "advance_loop h i =
     (if i < length chars
      then (line_break i @ printf_d (advance_px h (chars ! i)) @ '','') # advance_loop h (i + 1)
      else [])"
  by pat_completeness auto
termination
  by (relation "measure (\<lambda>(h, i). length chars - i)") auto

declare advance_loop.simps [simp del]

text \<open>
  \<open>saveButton\<close>, lines 105 to 174. \<open>name\<close> is the answer of the file dialog, \<open>None\<close> for the
  null string of a cancelled dialog: then the function returns at line 109 and writes
  nothing (\<open>Cancelled\<close>). \<open>fopen filename\<close> tells whether \<^verbatim>\<open>fopen(filename.c_str(), "w")\<close>
  of line 117 returns a stream. The program does not test the result: when it is the null
  pointer, the \<^verbatim>\<open>fprintf\<close> of line 118 writes through it, which is undefined behaviour and
  in practice the end of the process with nothing written (\<open>Crashed\<close>). Otherwise the run
  ends at line 173, and the result holds the name of the file and everything written to
  it between \<^verbatim>\<open>fopen\<close> and \<^verbatim>\<open>fclose\<close> (\<open>Written\<close>). The function has no other exit:
  nothing in it checks a rectangle, the line height or an answer of the font metrics.
\<close>

datatype outcome = Cancelled | Crashed | Written string string

definition font_text :: "host \<Rightarrow> string" where
  "font_text h =
     ''#[allow(dead_code)]\<newline>'' @
     ''pub const FONT: crate::screen::Font = crate::screen::Font {\<newline>'' @
     ''    height: '' @ printf_d (metrics_height h) @ '',\<newline>'' @
     ''    chars: &[\<newline>'' @
     concat (chars_loop h chars) @
     ''    ],\<newline>'' @
     ''    width: &[\<newline>        '' @
     concat (width_loop h 0) @
     ''\<newline>    ],\<newline>'' @
     ''    advance: &[\<newline>        '' @
     concat (advance_loop h 0) @
     ''\<newline>    ],\<newline>'' @
     ''};\<newline>''"

definition saveButton :: "host \<Rightarrow> (string \<Rightarrow> bool) \<Rightarrow> string option \<Rightarrow> outcome" where
  "saveButton h fopen name =
     (case name of
        None \<Rightarrow> Cancelled
      | Some filename \<Rightarrow>
          if fopen filename then Written filename (font_text h) else Crashed)"

section \<open>Hosts for the examples\<close>

text \<open>
  A host that answers the same for every character: line height \<open>H\<close>, bounding rectangle
  \<open>rect\<close>, advance \<open>adv\<close>, and the painted image \<open>img\<close>.
\<close>

definition mock_host :: "int \<Rightarrow> QRect \<Rightarrow> int \<Rightarrow> (int \<Rightarrow> int \<Rightarrow> 32 word) \<Rightarrow> host" where
  "mock_host H rect adv img =
     \<lparr>metrics_height = H,
      metrics_boundingRect = (\<lambda>ch. rect),
      metrics_horizontalAdvance = (\<lambda>ch. adv),
      image_pixel = (\<lambda>ch r. img)\<rparr>"

definition white :: "32 word" where
  \<comment> \<open>\<^verbatim>\<open>QColor(255, 255, 255)\<close> as ARGB32\<close>
  "white = 0xFFFFFFFF"

definition black :: "32 word" where
  \<comment> \<open>\<^verbatim>\<open>QColor(0, 0, 0)\<close> as ARGB32\<close>
  "black = 0xFF000000"

definition white_image :: "int \<Rightarrow> int \<Rightarrow> 32 word" where
  "white_image x y = white"

definition black_image :: "int \<Rightarrow> int \<Rightarrow> 32 word" where
  "black_image x y = black"

text \<open>A glyph whose bounding rectangle starts three columns to the right of the origin.\<close>

definition host_offset :: host where
  "host_offset = mock_host 8 (QRect_xywh 3 0 5 8) 9 white_image"

text \<open>A row of nine black pixels.\<close>

definition host_nine :: host where
  "host_nine = mock_host 1 (QRect_xywh 0 0 9 1) 10 black_image"

text \<open>A glyph of two columns whose left pixel alone is black.\<close>

definition left_pixel_image :: "int \<Rightarrow> int \<Rightarrow> 32 word" where
  "left_pixel_image x y = (if x = 0 then black else white)"

definition host_left_pixel :: host where
  "host_left_pixel = mock_host 1 (QRect_xywh 0 0 2 1) 3 left_pixel_image"

text \<open>A rectangle of height 0 and width 5, and the empty rectangle of a space.\<close>

definition host_flat :: host where
  "host_flat = mock_host 8 (QRect_xywh 0 0 5 0) 6 white_image"

definition host_space :: host where
  "host_space = mock_host 8 (QRect_xywh 0 0 0 0) 4 white_image"

text \<open>
  Qt's \<^verbatim>\<open>QImage::pixel\<close> answers a coordinate outside the image with a warning and the
  number 12345, whose blue channel is 57. \<open>QImage_pixel data\<close> is the image of line 115
  holding \<open>data\<close>, read as Qt reads it.
\<close>

definition QImage_pixel :: "(int \<Rightarrow> int \<Rightarrow> 32 word) \<Rightarrow> int \<Rightarrow> int \<Rightarrow> 32 word" where
  "QImage_pixel data x y = (if in_image x y then data x y else 12345)"

text \<open>
  A white image with a rectangle four columns wider than the image, and one with a line
  height one row taller than the image; a row of nine black pixels in an image read as Qt
  reads it; and a file system where every file opens.
\<close>

definition host_wide :: host where
  "host_wide = mock_host 1 (QRect_xywh 0 0 104 1) 10 (QImage_pixel white_image)"

definition host_tall :: host where
  "host_tall = mock_host 101 (QRect_xywh 0 0 1 101) 2 (QImage_pixel white_image)"

definition host_nine_qt :: host where
  "host_nine_qt = mock_host 1 (QRect_xywh 0 0 9 1) 10 (QImage_pixel black_image)"

definition fopen_succeeds :: "string \<Rightarrow> bool" where
  "fopen_succeeds filename = True"

section \<open>The column scan in the words of the specification\<close>

text \<open>
  The specification describes the scan of a glyph with bounding rectangle \<open>(rx, ry, rw, rh)\<close>
  as: \<open>xByte\<close> steps by 8 while \<open>xByte < rx + rw\<close>, each group covering
  \<open>left = min(8, (rx + rw) - xByte)\<close> columns. \<open>spec_column_scan rx rw xByte\<close> is this scan
  from a given \<open>xByte\<close> on; the specification starts it at \<open>xByte = rx\<close>.
\<close>

function spec_column_scan :: "int \<Rightarrow> int \<Rightarrow> int \<Rightarrow> (int \<times> int) list" where
  "spec_column_scan rx rw xByte =
     (if xByte < rx + rw
      then (xByte, min 8 ((rx + rw) - xByte)) # spec_column_scan rx rw (xByte + 8)
      else [])"
  by pat_completeness auto
termination
  by (relation "measure (\<lambda>(rx, rw, xByte). nat (rx + rw - xByte))") auto

declare spec_column_scan.simps [simp del]

section \<open>Reading numbers back\<close>

text \<open>
  To say that a string of digits denotes a number, the digits are read back:
  \<open>digit_val c\<close> is the position of \<open>c\<close> in \<^verbatim>\<open>0123456789abcdef\<close>, \<open>read_digits b s\<close> the
  number that \<open>s\<close> denotes in base \<open>b\<close>, and \<open>read_d s\<close> the integer that a decimal
  numeral with an optional minus sign denotes. They belong to the statements about the
  emitter, not to the program.
\<close>

definition digit_val :: "char \<Rightarrow> nat" where
  "digit_val c = length (takeWhile (\<lambda>d. d \<noteq> c) ''0123456789abcdef'')"

definition read_digits :: "nat \<Rightarrow> string \<Rightarrow> nat" where
  "read_digits b s = foldl (\<lambda>a c. b * a + digit_val c) 0 s"

definition read_d :: "string \<Rightarrow> int" where
  "read_d s = (case s of
                 [] \<Rightarrow> 0
               | c # ds \<Rightarrow> if c = CHR ''-'' then - int (read_digits 10 ds) else int (read_digits 10 s))"

section \<open>The loops in closed form\<close>

lemma column_groups_from:
  "column_groups r xByte =
     map (\<lambda>k. (xByte + 8 * int k, min 8 (QRect_x r + QRect_width r - (xByte + 8 * int k))))
         [0..<nat ((QRect_x r + QRect_width r - xByte + 7) div 8)]"
proof (induction r xByte rule: column_groups.induct)
  case (1 r xByte)
  define W where "W = QRect_x r + QRect_width r"
  show ?case
  proof (cases "xByte < W")
    case False
    then have "nat ((W - xByte + 7) div 8) = 0" by simp
    with False show ?thesis
      unfolding W_def [symmetric] by (subst column_groups.simps) (simp add: W_def)
  next
    case True
    then have n: "nat ((W - xByte + 7) div 8) = Suc (nat ((W - (xByte + 8) + 7) div 8))"
      by arith
    have IH: "column_groups r (xByte + 8) =
       map (\<lambda>k. (xByte + 8 + 8 * int k, min 8 (W - (xByte + 8 + 8 * int k))))
         [0..<nat ((W - (xByte + 8) + 7) div 8)]"
      using "1.IH" [OF True [unfolded W_def] refl refl] unfolding W_def .
    have "column_groups r xByte = (xByte, min 8 (W - xByte)) # column_groups r (xByte + 8)"
      using True by (subst column_groups.simps) (simp add: W_def Let_def min_def)
    also have "\<dots> = map (\<lambda>k. (xByte + 8 * int k, min 8 (W - (xByte + 8 * int k))))
         [0..<Suc (nat ((W - (xByte + 8) + 7) div 8))]"
      unfolding IH by (simp only: map_upt_Suc list.simps) (simp add: algebra_simps)
    finally show ?thesis unfolding W_def [symmetric] n .
  qed
qed

lemma y_loop_from:
  "y_loop img r charHeight y =
     concat (map (\<lambda>j. row_values img r (y + int j)) [0..<nat (charHeight - y)])"
proof (induction img r charHeight y rule: y_loop.induct)
  case (1 img r charHeight y)
  show ?case
  proof (cases "y < charHeight")
    case False
    then show ?thesis by (subst y_loop.simps) simp
  next
    case True
    then have n: "nat (charHeight - y) = Suc (nat (charHeight - (y + 1)))" by simp
    have "y_loop img r charHeight y = row_values img r y @ y_loop img r charHeight (y + 1)"
      using True by (subst y_loop.simps) simp
    also have "\<dots> = concat (map (\<lambda>j. row_values img r (y + int j)) [0..<Suc (nat (charHeight - (y + 1)))])"
      unfolding "1.IH" [OF True] by (simp only: map_upt_Suc concat.simps list.simps) (simp add: algebra_simps)
    finally show ?thesis unfolding n .
  qed
qed

lemma bit_push_bit_1_word32:
  "bit (push_bit m 1 :: 32 word) n \<longleftrightarrow> n = m \<and> n < 32"
  by (auto simp: bit_exp_iff)

lemma bit_x_loop:
  "bit (x_loop img xByte y left x v) n \<longleftrightarrow>
     bit v n \<or> (n < 32 \<and> int n \<le> left - 1 - x \<and> qBlue (img (xByte + (left - 1 - int n)) y) < 128)"
proof (induction img xByte y left x v rule: x_loop.induct)
  case (1 img xByte y left x v)
  show ?case
  proof (cases "x < left")
    case False
    then show ?thesis by (subst x_loop.simps) auto
  next
    case True
    define m where "m = nat (left - 1 - x)"
    define v' where "v' = (if qBlue (img (xByte + x) y) < 128 then v OR push_bit m 1 else v)"
    have le: "int n \<le> left - 1 - x \<longleftrightarrow> int n \<le> left - 1 - (x + 1) \<or> n = m"
      using True unfolding m_def by auto
    have at: "xByte + (left - 1 - int n) = xByte + x" if "n = m"
      using True that unfolding m_def by simp
    have v': "bit v' n \<longleftrightarrow> bit v n \<or> (qBlue (img (xByte + x) y) < 128 \<and> n = m \<and> n < 32)"
      unfolding v'_def by (auto simp: bit_or_iff bit_exp_iff)
    have "x_loop img xByte y left x v = x_loop img xByte y left (x + 1) v'"
      using True unfolding v'_def m_def by (subst x_loop.simps) simp
    then have "bit (x_loop img xByte y left x v) n \<longleftrightarrow>
        bit v' n \<or> (n < 32 \<and> int n \<le> left - 1 - (x + 1)
           \<and> qBlue (img (xByte + (left - 1 - int n)) y) < 128)"
      using "1.IH" [OF True] unfolding v'_def m_def by simp
    also have "\<dots> \<longleftrightarrow> bit v n \<or> (n < 32 \<and> int n \<le> left - 1 - x
           \<and> qBlue (img (xByte + (left - 1 - int n)) y) < 128)"
      unfolding v' le using at by auto
    finally show ?thesis .
  qed
qed

lemma chars_loop_map: "chars_loop h cs = map (glyph_text h) cs"
  by (induction cs) simp_all

lemma width_loop_from:
  "width_loop h i =
     map (\<lambda>j. line_break j @ printf_d (width_px h (chars ! j)) @ '','') [i..<length chars]"
proof (induction h i rule: width_loop.induct)
  case (1 h i)
  show ?case
  proof (cases "i < length chars")
    case False
    then show ?thesis by (subst width_loop.simps) simp
  next
    case True
    with "1.IH" [OF True] show ?thesis
      by (subst width_loop.simps) (simp add: upt_conv_Cons)
  qed
qed

lemma advance_loop_from:
  "advance_loop h i =
     map (\<lambda>j. line_break j @ printf_d (advance_px h (chars ! j)) @ '','') [i..<length chars]"
proof (induction h i rule: advance_loop.induct)
  case (1 h i)
  show ?case
  proof (cases "i < length chars")
    case False
    then show ?thesis by (subst advance_loop.simps) simp
  next
    case True
    with "1.IH" [OF True] show ?thesis
      by (subst advance_loop.simps) (simp add: upt_conv_Cons)
  qed
qed

lemma length_chars: "length chars = 170"
  by (simp add: chars_def)

section \<open>The rectangle of a glyph\<close>

lemma glyph_rect_eq:
  "glyph_rect h ch =
     \<lparr>x1 = 0, y1 = 0, x2 = x2 (metrics_boundingRect h ch), y2 = metrics_height h - 1\<rparr>"
  by (simp add: glyph_rect_def QRect_setX_def QRect_setY_def QRect_setHeight_def)

lemma width_px_eq: "width_px h ch = x2 (metrics_boundingRect h ch) + 1"
  by (simp add: width_px_def QRect_setX_def QRect_x_def QRect_width_def)

lemma glyph_rect_right:
  "QRect_x (glyph_rect h ch) + QRect_width (glyph_rect h ch) = width_px h ch"
  by (simp add: glyph_rect_eq width_px_eq QRect_x_def QRect_width_def)

lemma length_row_values:
  "length (row_values img r y) = nat ((QRect_x r + QRect_width r + 7) div 8)"
  by (simp add: row_values_def column_groups_from)

lemma length_y_loop:
  "length (y_loop img r charHeight 0) = nat charHeight * nat ((QRect_x r + QRect_width r + 7) div 8)"
  by (simp add: y_loop_from length_concat comp_def length_row_values sum_list_triv)

lemma length_glyph_bytes:
  "length (glyph_bytes h ch) = nat (metrics_height h) * nat ((width_px h ch + 7) div 8)"
  by (simp add: glyph_bytes_def Let_def length_y_loop glyph_rect_right)

lemma ceiling_div_8: "\<lceil>real_of_int w / 8\<rceil> = (w + 7) div 8"
proof -
  have "\<lceil>real_of_int w / real_of_int 8\<rceil> = - (- w div 8)"
    by (rule ceiling_divide_eq_div)
  also have "\<dots> = (w + 7) div 8" by presburger
  finally show ?thesis by simp
qed

lemma spec_column_scan_from:
  "spec_column_scan rx rw xByte =
     map (\<lambda>k. (xByte + 8 * int k, min 8 (rx + rw - (xByte + 8 * int k))))
         [0..<nat ((rx + rw - xByte + 7) div 8)]"
proof (induction rx rw xByte rule: spec_column_scan.induct)
  case (1 rx rw xByte)
  show ?case
  proof (cases "xByte < rx + rw")
    case False
    then have "nat ((rx + rw - xByte + 7) div 8) = 0" by simp
    with False show ?thesis
      by (subst spec_column_scan.simps) simp
  next
    case True
    then have n: "nat ((rx + rw - xByte + 7) div 8) = Suc (nat ((rx + rw - (xByte + 8) + 7) div 8))"
      by arith
    have "spec_column_scan rx rw xByte =
            (xByte, min 8 (rx + rw - xByte)) # spec_column_scan rx rw (xByte + 8)"
      using True by (subst spec_column_scan.simps) simp
    also have "\<dots> = map (\<lambda>k. (xByte + 8 * int k, min 8 (rx + rw - (xByte + 8 * int k))))
         [0..<Suc (nat ((rx + rw - (xByte + 8) + 7) div 8))]"
      unfolding "1.IH" [OF True] by (simp only: map_upt_Suc list.simps) (simp add: algebra_simps)
    finally show ?thesis unfolding n .
  qed
qed

lemma width_px_xywh:
  "metrics_boundingRect h ch = QRect_xywh rx ry rw rh \<Longrightarrow> width_px h ch = rx + rw"
  by (simp add: width_px_eq QRect_xywh_def)

lemma length_concat_rows:
  "(\<And>i. i < n \<Longrightarrow> length (f i) = m) \<Longrightarrow> length (concat (map f [0..<n])) = n * m"
  by (induction n) simp_all

lemma concat_rows_nth:
  assumes "\<And>i. i < n \<Longrightarrow> length (f i) = m" and "i < n" and "k < m"
  shows "concat (map f [0..<n]) ! (i * m + k) = f i ! k"
  using assms
proof (induction n)
  case 0
  then show ?case by simp
next
  case (Suc n)
  have len: "length (concat (map f [0..<n])) = n * m"
    using Suc.prems(1) by (intro length_concat_rows) simp
  show ?case
  proof (cases "i < n")
    case True
    then have "i * m + k < n * m"
      using Suc.prems(3) by (metis add.commute mult_Suc less_le_trans add_less_cancel_left Suc_leI mult_le_mono1)
    with True Suc show ?thesis
      by (simp add: nth_append len)
  next
    case False
    with Suc.prems have "i = n" by simp
    then show ?thesis by (simp add: nth_append len)
  qed
qed

lemma glyph_bytes_nth:
  assumes "0 \<le> y" and "y < metrics_height h" and "k < nat ((width_px h ch + 7) div 8)"
  shows "glyph_bytes h ch ! (nat y * nat ((width_px h ch + 7) div 8) + k) =
           x_loop (image_pixel h ch (glyph_rect h ch)) (8 * int k) y
             (min 8 (width_px h ch - 8 * int k)) 0 0"
proof -
  define r where "r = glyph_rect h ch"
  define img where "img = image_pixel h ch r"
  define G where "G = nat ((width_px h ch + 7) div 8)"
  have W: "QRect_x r + QRect_width r = width_px h ch"
    unfolding r_def by (rule glyph_rect_right)
  have "glyph_bytes h ch ! (nat y * G + k) =
          concat (map (\<lambda>j. row_values img r (int j)) [0..<nat (metrics_height h)]) ! (nat y * G + k)"
    by (simp add: glyph_bytes_def Let_def y_loop_from r_def img_def)
  also have "\<dots> = row_values img r (int (nat y)) ! k"
    using assms by (intro concat_rows_nth) (simp_all add: length_row_values W G_def)
  also have "\<dots> = x_loop img (8 * int k) y (min 8 (width_px h ch - 8 * int k)) 0 0"
    using assms by (simp add: row_values_def column_groups_from W)
  finally show ?thesis unfolding G_def img_def r_def .
qed

lemma x_loop_fits_byte:
  assumes "left \<le> 8"
  shows "unat (x_loop img xByte y left 0 0) \<le> 255"
proof -
  define w where "w = x_loop img xByte y left 0 0"
  have "take_bit 8 w = w"
    using assms by (intro bit_eqI) (auto simp: bit_take_bit_iff bit_x_loop w_def)
  then have "unat w = take_bit 8 (unat w)"
    by (metis unsigned_take_bit_eq)
  also have "\<dots> < 2 ^ 8" by (rule take_bit_nat_less_exp)
  finally show ?thesis unfolding w_def by simp
qed

lemma nth_width_loop:
  "i < length chars \<Longrightarrow>
     width_loop h 0 ! i = line_break i @ printf_d (width_px h (chars ! i)) @ '',''"
  by (simp add: width_loop_from)

lemma nth_advance_loop:
  "i < length chars \<Longrightarrow>
     advance_loop h 0 ! i = line_break i @ printf_d (advance_px h (chars ! i)) @ '',''"
  by (simp add: advance_loop_from)

lemma printf_d_0: "printf_d 0 = ''0''"
  by (simp add: printf_d_def digits.simps digit_char_def)

lemma x_loop_cong:
  assumes "\<And>c. 0 \<le> c \<Longrightarrow> c < left \<Longrightarrow> img (xByte + c) y = img' (xByte + c) y"
  shows "x_loop img xByte y left 0 0 = x_loop img' xByte y left 0 0"
proof (rule bit_eqI)
  fix n
  have "img (xByte + (left - 1 - int n)) y = img' (xByte + (left - 1 - int n)) y"
    if "int n \<le> left - 1"
    using that by (intro assms) simp_all
  then show "bit (x_loop img xByte y left 0 0) n \<longleftrightarrow> bit (x_loop img' xByte y left 0 0) n"
    unfolding bit_x_loop by auto
qed

lemma y_loop_inside_image:
  assumes "\<And>x y. in_image x y \<Longrightarrow> img x y = img' x y"
    and "QRect_x r + QRect_width r \<le> image_width" and "charHeight \<le> image_height"
  shows "y_loop img r charHeight 0 = y_loop img' r charHeight 0"
proof -
  have "x_loop img (8 * int k) (int j) (min 8 (QRect_x r + QRect_width r - 8 * int k)) 0 0 =
        x_loop img' (8 * int k) (int j) (min 8 (QRect_x r + QRect_width r - 8 * int k)) 0 0"
    if "j < nat charHeight" for j k
  proof (rule x_loop_cong)
    fix c :: int
    assume "0 \<le> c" and "c < min 8 (QRect_x r + QRect_width r - 8 * int k)"
    with that assms(2,3) have "in_image (8 * int k + c) (int j)"
      by (simp add: in_image_def)
    then show "img (8 * int k + c) (int j) = img' (8 * int k + c) (int j)"
      by (rule assms(1))
  qed
  then have "row_values img r (int j) = row_values img' r (int j)" if "j < nat charHeight" for j
    using that by (simp add: row_values_def column_groups_from)
  then have "map (\<lambda>j. row_values img r (0 + int j)) [0..<nat (charHeight - 0)] =
             map (\<lambda>j. row_values img' r (0 + int j)) [0..<nat (charHeight - 0)]"
    by (intro map_cong) simp_all
  then show ?thesis
    unfolding y_loop_from by (rule arg_cong)
qed

section \<open>The conversions of \<open>fprintf\<close>\<close>

lemma digit_table: "\<forall>d \<in> set [0..<16]. digit_val (digit_char d) = d \<and> (digit_char d = CHR ''0'' \<longleftrightarrow> d = 0)
    \<and> digit_char d \<noteq> CHR ''-''"
  by code_simp

lemma digit_val_digit_char: "d < 16 \<Longrightarrow> digit_val (digit_char d) = d"
  using digit_table by simp

lemma digit_char_0_iff: "d < 16 \<Longrightarrow> digit_char d = CHR ''0'' \<longleftrightarrow> d = 0"
  using digit_table by simp

lemma digit_char_not_minus: "d < 16 \<Longrightarrow> digit_char d \<noteq> CHR ''-''"
  using digit_table by simp

lemma digit_char_mem: "d < b \<Longrightarrow> b \<le> 16 \<Longrightarrow> digit_char d \<in> set (take b ''0123456789abcdef'')"
  unfolding digit_char_def in_set_conv_nth by (intro exI [of _ d]) simp

lemma digits_nonempty: "digits b n \<noteq> []"
  by (subst digits.simps) simp

lemma set_digits:
  assumes "2 \<le> b" and "b \<le> 16"
  shows "set (digits b n) \<subseteq> set (take b ''0123456789abcdef'')"
  using assms
proof (induction b n rule: digits.induct)
  case (1 b n)
  show ?case
  proof (cases "n < b")
    case True
    with "1.prems" show ?thesis
      by (subst digits.simps) (simp add: digit_char_mem)
  next
    case False
    with "1.prems" have "set (digits b (n div b)) \<subseteq> set (take b ''0123456789abcdef'')"
      by (intro "1.IH") simp_all
    moreover have "digit_char (n mod b) \<in> set (take b ''0123456789abcdef'')"
      using "1.prems" by (intro digit_char_mem) simp_all
    ultimately show ?thesis
      using False "1.prems" by (subst digits.simps) simp
  qed
qed

lemma read_digits_digits:
  assumes "2 \<le> b" and "b \<le> 16"
  shows "read_digits b (digits b n) = n"
  using assms
proof (induction b n rule: digits.induct)
  case (1 b n)
  show ?case
  proof (cases "n < b")
    case True
    with "1.prems" show ?thesis
      by (subst digits.simps) (simp add: read_digits_def digit_val_digit_char)
  next
    case False
    with "1.prems" have "read_digits b (digits b (n div b)) = n div b"
      by (intro "1.IH") simp_all
    moreover have "digit_val (digit_char (n mod b)) = n mod b"
      using "1.prems" by (intro digit_val_digit_char) (simp add: less_le_trans [OF mod_less_divisor])
    ultimately show ?thesis
      using False "1.prems" by (subst digits.simps) (simp add: read_digits_def)
  qed
qed

lemma hd_digits:
  assumes "2 \<le> b" and "b \<le> 16"
  shows "hd (digits b n) = CHR ''0'' \<longleftrightarrow> n = 0"
  using assms
proof (induction b n rule: digits.induct)
  case (1 b n)
  show ?case
  proof (cases "n < b")
    case True
    with "1.prems" show ?thesis
      by (subst digits.simps) (simp add: digit_char_0_iff)
  next
    case False
    with "1.prems" have "hd (digits b (n div b)) = CHR ''0'' \<longleftrightarrow> n div b = 0"
      by (intro "1.IH") simp_all
    moreover have "n div b \<noteq> 0"
      using False "1.prems" by (simp add: div_eq_0_iff)
    ultimately show ?thesis
      using False "1.prems" by (subst digits.simps) (simp add: digits_nonempty)
  qed
qed

lemma hd_digits_not_minus:
  assumes "2 \<le> b" and "b \<le> 16"
  shows "hd (digits b n) \<noteq> CHR ''-''"
proof -
  have "hd (digits b n) \<in> set (digits b n)"
    by (simp add: digits_nonempty)
  then have "hd (digits b n) \<in> set (take b ''0123456789abcdef'')"
    using set_digits [OF assms] by blast
  then have "hd (digits b n) \<in> set ''0123456789abcdef''"
    by (rule in_set_takeD)
  then show ?thesis by auto
qed

lemma read_d_printf_d: "read_d (printf_d i) = i"
proof (cases "i < 0")
  case True
  then show ?thesis
    by (simp add: read_d_def printf_d_def read_digits_digits)
next
  case False
  have "digits 10 (nat i) \<noteq> []" by (rule digits_nonempty)
  then obtain c ds where s: "digits 10 (nat i) = c # ds"
    by (cases "digits 10 (nat i)") auto
  have "c \<noteq> CHR ''-''"
    using hd_digits_not_minus [of 10 "nat i"] unfolding s by simp
  with False show ?thesis
    using read_digits_digits [of 10 "nat i"] by (simp add: read_d_def printf_d_def s)
qed

lemma line_break_iff:
  "i < 170 \<Longrightarrow> line_break i = (if i \<in> {32, 64, 96, 128, 160} then ''\<newline>        '' else [])"
proof -
  assume "i < 170"
  then have "(0 < i \<and> i mod 32 = 0) \<longleftrightarrow> (i = 32 \<or> i = 64 \<or> i = 96 \<or> i = 128 \<or> i = 160)"
    by presburger
  then show ?thesis by (simp add: line_break_def)
qed

section \<open>The claims\<close>

subsection \<open>C1: the reported width\<close>

text \<open>
  C1 says that the number written into \<open>width\<close> is the width \<open>rw\<close> of the bounding
  rectangle. It fails for a rectangle whose left edge is not 0: \<^verbatim>\<open>setX(0)\<close> moves the left
  edge and keeps the right one, so for the rectangle \<open>(3, 0, 5, 8)\<close> the program prints
  \<open>3 + 5 = 8\<close>, not 5.
\<close>

theorem width_px_not_rect_width_counterexample:
  "metrics_boundingRect host_offset ''j'' = QRect_xywh 3 0 5 8
   \<and> QRect_width (metrics_boundingRect host_offset ''j'') = 5
   \<and> width_px host_offset ''j'' = 8
   \<and> width_px host_offset ''j'' \<noteq> QRect_width (metrics_boundingRect host_offset ''j'')"
  by (simp add: host_offset_def mock_host_def width_px_eq QRect_xywh_def QRect_width_def)

text \<open>
  C1 as amended: for every character the number written into \<open>width\<close> is \<open>rx + rw\<close>, the
  column just right of the bounding rectangle (its right edge plus one); it is the width
  \<open>rw\<close> exactly when the rectangle starts at \<open>rx = 0\<close>.
\<close>

theorem width_px_is_right_edge:
  "width_px h ch = QRect_x (metrics_boundingRect h ch) + QRect_width (metrics_boundingRect h ch)
   \<and> (width_px h ch = QRect_width (metrics_boundingRect h ch)
        \<longleftrightarrow> QRect_x (metrics_boundingRect h ch) = 0)"
  by (auto simp: width_px_eq QRect_x_def QRect_width_def)

subsection \<open>C4: the size of the repertoire\<close>

text \<open>
  C4 says that the repertoire has 186 entries. The vector of lines 13 to 24 has ten lines
  of sixteen entries and one of ten: 170.
\<close>

theorem repertoire_not_186_counterexample: "length chars = 170 \<and> length chars \<noteq> 186"
  by (simp add: length_chars)

text \<open>
  C4 as amended: the repertoire is a constant of exactly 170 entries, and in every run that
  writes the file the loops of \<open>chars\<close>, \<open>width\<close> and \<open>advance\<close> each write exactly 170
  elements, the one at position \<open>i\<close> being that of the \<open>i\<close>-th entry of the repertoire.
\<close>

theorem repertoire_170_entries:
  "length chars = 170
   \<and> chars_loop h chars = map (glyph_text h) chars
   \<and> width_loop h 0 = map (\<lambda>i. line_break i @ printf_d (width_px h (chars ! i)) @ '','') [0..<170]
   \<and> advance_loop h 0 = map (\<lambda>i. line_break i @ printf_d (advance_px h (chars ! i)) @ '','') [0..<170]
   \<and> length (chars_loop h chars) = 170
   \<and> length (width_loop h 0) = 170
   \<and> length (advance_loop h 0) = 170"
  by (simp add: chars_loop_map width_loop_from advance_loop_from length_chars)

subsection \<open>C5: the number of bytes of a glyph\<close>

text \<open>
  C5: a glyph whose reported width is \<open>w\<close> has \<open>H * ceil (w / 8)\<close> bytes when \<open>w > 0\<close>, and
  none otherwise, \<open>H\<close> being the line height (which is not negative).
\<close>

theorem byte_count_law:
  assumes "0 \<le> metrics_height h"
  shows "int (length (glyph_bytes h ch)) =
           (if 0 < width_px h ch
            then metrics_height h * \<lceil>real_of_int (width_px h ch) / 8\<rceil>
            else 0)"
proof (cases "0 < width_px h ch")
  case True
  then have "0 \<le> (width_px h ch + 7) div 8" by simp
  with True assms show ?thesis
    by (simp add: length_glyph_bytes ceiling_div_8)
next
  case False
  then have "(width_px h ch + 7) div 8 \<le> 0" by simp
  with False show ?thesis
    by (simp add: length_glyph_bytes)
qed

theorem byte_count_law_witness:
  "0 \<le> metrics_height host_nine
   \<and> width_px host_nine ''a'' = 9
   \<and> int (length (glyph_bytes host_nine ''a'')) = 1 * \<lceil>9 / 8 :: real\<rceil>
   \<and> length (glyph_bytes host_nine ''a'') = 2"
  using byte_count_law [of host_nine "''a''"]
  by (simp add: host_nine_def mock_host_def width_px_eq QRect_xywh_def)

subsection \<open>C7: the rows of a glyph\<close>

text \<open>
  C7: the \<open>y\<close> and the height of the oracle's rectangle are replaced by 0 and the line
  height \<open>H\<close> before painting and scanning, so that another \<open>y\<close> or height gives the same
  rectangle and the same bytes; and the bytes of a glyph are those of the rows
  \<open>0, 1, ..., H - 1\<close>, in this order.
\<close>

theorem rows_cover_line_height:
  "QRect_y (glyph_rect h ch) = 0
   \<and> QRect_height (glyph_rect h ch) = metrics_height h
   \<and> glyph_rect (h\<lparr>metrics_boundingRect := (\<lambda>c. (metrics_boundingRect h c)\<lparr>y1 := a, y2 := b\<rparr>)\<rparr>) ch
       = glyph_rect h ch
   \<and> glyph_bytes (h\<lparr>metrics_boundingRect := (\<lambda>c. (metrics_boundingRect h c)\<lparr>y1 := a, y2 := b\<rparr>)\<rparr>) ch
       = glyph_bytes h ch
   \<and> glyph_bytes h ch =
       concat (map (\<lambda>j. row_values (image_pixel h ch (glyph_rect h ch)) (glyph_rect h ch) (int j))
                   [0..<nat (metrics_height h)])"
  by (simp add: glyph_rect_eq QRect_y_def QRect_height_def glyph_bytes_def Let_def y_loop_from)

subsection \<open>C2: the column scan\<close>

text \<open>
  C2 says that the scan of a row starts at \<open>xByte = rx\<close>. The loop of line 137 starts at
  \<open>xByte = 0\<close>: for the rectangle \<open>(3, 0, 5, 8)\<close> it makes one group of the columns 0 to 7,
  where the scan of the specification makes one group of the columns 3 to 7.
\<close>

theorem column_scan_from_0_counterexample:
  "metrics_boundingRect host_offset ''j'' = QRect_xywh 3 0 5 8
   \<and> column_groups (glyph_rect host_offset ''j'') 0 = [(0, 8)]
   \<and> spec_column_scan 3 5 3 = [(3, 5)]
   \<and> column_groups (glyph_rect host_offset ''j'') 0 \<noteq> spec_column_scan 3 5 3"
  by (simp add: host_offset_def mock_host_def column_groups_from spec_column_scan_from
        glyph_rect_eq QRect_xywh_def QRect_x_def QRect_width_def)

text \<open>
  C2 as amended: for every character with bounding rectangle \<open>(rx, ry, rw, rh)\<close> the scan
  of a row starts at \<open>xByte = 0\<close>, steps by 8 and continues while \<open>xByte < rx + rw\<close>, each
  group covering \<open>left = min(8, (rx + rw) - xByte)\<close> columns: it makes \<open>ceil ((rx + rw) / 8)\<close>
  groups, the \<open>k\<close>-th at column \<open>8 * k\<close>, and a glyph with \<open>rx > 0\<close> is packed from column 0
  of the image on.
\<close>

theorem column_scan_from_0:
  assumes "metrics_boundingRect h ch = QRect_xywh rx ry rw rh"
  shows "column_groups (glyph_rect h ch) 0 = spec_column_scan rx rw 0
    \<and> column_groups (glyph_rect h ch) 0 =
        map (\<lambda>k. (8 * int k, min 8 ((rx + rw) - 8 * int k))) [0..<nat \<lceil>real_of_int (rx + rw) / 8\<rceil>]
    \<and> row_values img (glyph_rect h ch) y =
        map (\<lambda>(xByte, left). x_loop img xByte y left 0 0) (spec_column_scan rx rw 0)"
proof -
  have "QRect_x (glyph_rect h ch) + QRect_width (glyph_rect h ch) = rx + rw"
    using assms by (simp add: glyph_rect_right width_px_xywh)
  then have *: "column_groups (glyph_rect h ch) 0 = spec_column_scan rx rw 0"
    by (simp add: column_groups_from spec_column_scan_from)
  then show ?thesis
    unfolding ceiling_div_8 by (simp add: row_values_def spec_column_scan_from)
qed

theorem column_scan_from_0_witness:
  "metrics_boundingRect host_offset ''j'' = QRect_xywh 3 0 5 8
   \<and> column_groups (glyph_rect host_offset ''j'') 0 = spec_column_scan 3 5 0
   \<and> column_groups (glyph_rect host_offset ''j'') 0 = [(0, 8)]"
proof -
  have b: "metrics_boundingRect host_offset ''j'' = QRect_xywh 3 0 5 8"
    by (simp add: host_offset_def mock_host_def)
  from column_scan_from_0 [OF b] b show ?thesis
    by (simp add: spec_column_scan_from)
qed

subsection \<open>C6: the order of the bits\<close>

text \<open>
  C6: in the byte written for row \<open>y\<close> and the \<open>k\<close>-th column group of a glyph, whose
  \<open>xByte\<close> is \<open>8 * k\<close> and whose width is \<open>left\<close>, bit \<open>(left - 1) - x\<close> is set if and only
  if the blue channel of the pixel \<open>(xByte + x, y)\<close> is below 128, for every \<open>x\<close> from 0 to
  \<open>left - 1\<close>. So the leftmost pixel of the group is bit \<open>left - 1\<close> (bit 7 of a full
  group) and the rightmost is bit 0.
\<close>

theorem bit_order_law:
  assumes "0 \<le> y" and "y < metrics_height h"
    and "k < nat \<lceil>real_of_int (width_px h ch) / 8\<rceil>"
    and "left = min 8 (width_px h ch - 8 * int k)"
    and "0 \<le> x" and "x < left"
  shows "(bit (glyph_bytes h ch ! (nat y * nat \<lceil>real_of_int (width_px h ch) / 8\<rceil> + k))
              (nat ((left - 1) - x))
          \<longleftrightarrow> qBlue (image_pixel h ch (glyph_rect h ch) (8 * int k + x) y) < 128)
       \<and> (bit (glyph_bytes h ch ! (nat y * nat \<lceil>real_of_int (width_px h ch) / 8\<rceil> + k))
              (nat (left - 1))
          \<longleftrightarrow> qBlue (image_pixel h ch (glyph_rect h ch) (8 * int k) y) < 128)
       \<and> (bit (glyph_bytes h ch ! (nat y * nat \<lceil>real_of_int (width_px h ch) / 8\<rceil> + k)) 0
          \<longleftrightarrow> qBlue (image_pixel h ch (glyph_rect h ch) (8 * int k + (left - 1)) y) < 128)"
proof -
  have b: "glyph_bytes h ch ! (nat y * nat \<lceil>real_of_int (width_px h ch) / 8\<rceil> + k) =
             x_loop (image_pixel h ch (glyph_rect h ch)) (8 * int k) y left 0 0"
    using assms(1-4) unfolding ceiling_div_8 by (simp add: glyph_bytes_nth)
  have left: "left \<le> 8" "1 \<le> left"
    using assms(4-6) by simp_all
  have column: "bit (x_loop (image_pixel h ch (glyph_rect h ch)) (8 * int k) y left 0 0)
                  (nat ((left - 1) - c))
                \<longleftrightarrow> qBlue (image_pixel h ch (glyph_rect h ch) (8 * int k + c) y) < 128"
    if "0 \<le> c" and "c < left" for c
  proof -
    have n: "int (nat (left - 1 - c)) = left - 1 - c" "nat (left - 1 - c) < 32"
      using that left by simp_all
    show ?thesis
      unfolding bit_x_loop n(1) using that n(2) by simp
  qed
  from column [of x] column [of 0] column [of "left - 1"] assms(5,6) left
  show ?thesis unfolding b by simp
qed

theorem bit_order_law_witness:
  "(0::int) \<le> 0 \<and> 0 < metrics_height host_left_pixel
   \<and> 0 < nat \<lceil>real_of_int (width_px host_left_pixel ''a'') / 8\<rceil>
   \<and> (2::int) = min 8 (width_px host_left_pixel ''a'' - 8 * int 0)
   \<and> (bit (glyph_bytes host_left_pixel ''a'' ! 0) 1
        \<longleftrightarrow> qBlue (image_pixel host_left_pixel ''a'' (glyph_rect host_left_pixel ''a'') 0 0) < 128)
   \<and> qBlue (image_pixel host_left_pixel ''a'' (glyph_rect host_left_pixel ''a'') 0 0) = 0
   \<and> glyph_bytes host_left_pixel ''a'' = [2]"
proof -
  have H: "metrics_height host_left_pixel = 1"
    by (simp add: host_left_pixel_def mock_host_def)
  have w: "width_px host_left_pixel ''a'' = 2"
    by (simp add: host_left_pixel_def mock_host_def width_px_eq QRect_xywh_def)
  have c: "nat \<lceil>real_of_int (width_px host_left_pixel ''a'') / 8\<rceil> = 1"
    unfolding ceiling_div_8 w by simp
  have p: "qBlue (image_pixel host_left_pixel ''a'' (glyph_rect host_left_pixel ''a'') 0 0) = 0"
    by (simp add: host_left_pixel_def mock_host_def left_pixel_image_def black_def qBlue_def)
  have g: "glyph_bytes host_left_pixel ''a'' = [2]"
    by code_simp
  have hyps: "(0::int) \<le> 0" "0 < metrics_height host_left_pixel"
    "0 < nat \<lceil>real_of_int (width_px host_left_pixel ''a'') / 8\<rceil>"
    "(2::int) = min 8 (width_px host_left_pixel ''a'' - 8 * int 0)"
    "(0::int) < 2"
    by (simp_all add: H w c)
  from bit_order_law [OF hyps(1,2,3,4) hyps(1) hyps(5)] hyps
  show ?thesis
    by (simp add: c p g)
qed

subsection \<open>C10: every value fits a byte\<close>

text \<open>
  C10: every value written for a glyph is at most 255, since \<open>left\<close> is at most 8 and only
  the bits 0 to \<open>left - 1\<close> are ever set.
\<close>

theorem packed_values_fit_a_byte:
  assumes "v \<in> set (glyph_bytes h ch)"
  shows "unat v \<le> 255"
  using assms
  by (auto simp: glyph_bytes_def Let_def y_loop_from row_values_def column_groups_from
        intro!: x_loop_fits_byte)

theorem packed_values_fit_a_byte_witness:
  "255 \<in> set (glyph_bytes host_nine ''a'') \<and> unat (255 :: 32 word) \<le> 255
   \<and> glyph_bytes host_nine ''a'' = [255, 1]"
proof -
  have g: "glyph_bytes host_nine ''a'' = [255, 1]"
    by code_simp
  then have m: "255 \<in> set (glyph_bytes host_nine ''a'')"
    by simp
  from packed_values_fit_a_byte [OF m] m g show ?thesis
    by simp
qed

subsection \<open>C8: empty glyphs\<close>

text \<open>
  C8 says that a bounding rectangle with \<open>rw = 0\<close> or \<open>rh = 0\<close> gives no bytes and the width
  0. The height of the rectangle is overwritten by the line height (line 128) and plays no
  part: for the rectangle \<open>(0, 0, 5, 0)\<close> and the line height 8 the program writes eight
  bytes and the width 5.
\<close>

theorem zero_height_rect_counterexample:
  "metrics_boundingRect host_flat ''-'' = QRect_xywh 0 0 5 0
   \<and> QRect_height (metrics_boundingRect host_flat ''-'') = 0
   \<and> glyph_bytes host_flat ''-'' = [0, 0, 0, 0, 0, 0, 0, 0]
   \<and> width_px host_flat ''-'' = 5"
proof -
  have "glyph_bytes host_flat ''-'' = [0, 0, 0, 0, 0, 0, 0, 0]"
    by code_simp
  then show ?thesis
    by (simp add: host_flat_def mock_host_def width_px_eq QRect_xywh_def QRect_height_def)
qed

text \<open>
  C8 as amended: for every character whose bounding rectangle has \<open>rx + rw = 0\<close>, as the
  rectangle \<open>(0, 0, 0, 0)\<close> has, whatever its \<open>rh\<close>, the packer produces no byte (the entry
  of \<open>chars\<close> is an empty array) and the width written is 0, while the advance written is
  still the oracle's.
\<close>

theorem empty_glyph:
  assumes "metrics_boundingRect h ch = QRect_xywh rx ry rw rh" and "rx + rw = 0"
  shows "glyph_bytes h ch = []
       \<and> glyph_text h ch = ''        &[],\<newline>''
       \<and> width_px h ch = 0
       \<and> advance_px h ch = metrics_horizontalAdvance h ch
       \<and> (\<forall>i < length chars. chars ! i = ch \<longrightarrow>
            width_loop h 0 ! i = line_break i @ ''0,''
            \<and> advance_loop h 0 ! i = line_break i @ printf_d (metrics_horizontalAdvance h ch) @ '','')"
proof -
  have w: "width_px h ch = 0"
    using assms by (simp add: width_px_xywh)
  then have "length (glyph_bytes h ch) = 0"
    by (simp add: length_glyph_bytes)
  then have b: "glyph_bytes h ch = []" by simp
  show ?thesis
    by (simp add: b w glyph_text_def advance_px_def nth_width_loop nth_advance_loop printf_d_0)
qed

theorem empty_glyph_witness:
  "metrics_boundingRect host_space '' '' = QRect_xywh 0 0 0 0 \<and> (0::int) + 0 = 0
   \<and> glyph_bytes host_space '' '' = []
   \<and> width_px host_space '' '' = 0
   \<and> advance_px host_space '' '' = 4
   \<and> chars ! 0 = '' ''
   \<and> width_loop host_space 0 ! 0 = ''0,''
   \<and> advance_loop host_space 0 ! 0 = ''4,''"
proof -
  have b: "metrics_boundingRect host_space '' '' = QRect_xywh 0 0 0 0"
    by (simp add: host_space_def mock_host_def)
  have z: "(0::int) + 0 = 0" by simp
  have a: "metrics_horizontalAdvance host_space '' '' = 4"
    by (simp add: host_space_def mock_host_def)
  have c: "chars ! 0 = '' ''" "0 < length chars"
    by (simp_all add: chars_def)
  have l: "line_break 0 = []" by (simp add: line_break_def)
  have d: "printf_d 4 = ''4''"
    by (simp add: printf_d_def digits.simps digit_char_def)
  from empty_glyph [OF b z] c b
  show ?thesis
    by (simp add: a l d)
qed

subsection \<open>C3: rectangles larger than the image\<close>

text \<open>
  C3 says that a bounding rectangle or a line height exceeding the image of 100 by 100
  pixels makes the run fail with an \<open>OverflowError\<close>, and that no pixel outside the image
  is read. The program checks nothing. For a white glyph with \<open>rx + rw = 104\<close> the run
  writes the file, and the last byte of the row is 15: its four low bits are the columns
  100 to 103, outside the image, for which Qt answers 12345. For a line height of 101 the
  glyph has 101 rows, and the last one is the row 100, outside the image.
\<close>

theorem no_overflow_error_counterexample:
  "width_px host_wide ''W'' = 104 \<and> image_width = 100
   \<and> saveButton host_wide fopen_succeeds (Some ''font.rs'') = Written ''font.rs'' (font_text host_wide)
   \<and> \<not> in_image 100 0
   \<and> qBlue (image_pixel host_wide ''W'' (glyph_rect host_wide ''W'') 100 0) = 57
   \<and> glyph_bytes host_wide ''W'' = [0, 0, 0, 0, 0, 0, 0, 0, 0, 0, 0, 0, 15]
   \<and> glyph_text host_wide ''W'' = ''        &[0x0,0x0,0x0,0x0,0x0,0x0,0x0,0x0,0x0,0x0,0x0,0x0,0xf,],\<newline>''
   \<and> metrics_height host_tall = 101 \<and> image_height = 100
   \<and> saveButton host_tall fopen_succeeds (Some ''font.rs'') = Written ''font.rs'' (font_text host_tall)
   \<and> \<not> in_image 0 100
   \<and> length (glyph_bytes host_tall ''|'') = 101
   \<and> glyph_bytes host_tall ''|'' ! 99 = 0
   \<and> glyph_bytes host_tall ''|'' ! 100 = 1"
proof -
  have 1: "glyph_bytes host_wide ''W'' = [0, 0, 0, 0, 0, 0, 0, 0, 0, 0, 0, 0, 15]"
    by code_simp
  have 2: "glyph_text host_wide ''W'' = ''        &[0x0,0x0,0x0,0x0,0x0,0x0,0x0,0x0,0x0,0x0,0x0,0x0,0xf,],\<newline>''"
    by code_simp
  have 3: "width_px host_wide ''W'' = 104" "metrics_height host_tall = 101"
    by (simp_all add: host_wide_def host_tall_def mock_host_def width_px_eq QRect_xywh_def)
  have 4: "qBlue (image_pixel host_wide ''W'' (glyph_rect host_wide ''W'') 100 0) = 57"
    by (simp add: host_wide_def mock_host_def QImage_pixel_def in_image_def image_width_def qBlue_def)
  have 5: "length (glyph_bytes host_tall ''|'') = 101"
    "glyph_bytes host_tall ''|'' ! 99 = 0" "glyph_bytes host_tall ''|'' ! 100 = 1"
    by code_simp+
  show ?thesis
    by (simp add: 1 2 3 4 5 saveButton_def fopen_succeeds_def image_width_def image_height_def
          in_image_def)
qed

text \<open>
  C3 as amended: the program has no overflow check and no \<open>OverflowError\<close>. Whatever the
  bounding rectangles and the line height \<open>H\<close>, a run whose file opens writes the whole
  file: the header, the entry of each of the 170 characters in \<open>chars\<close>, \<open>width\<close> and
  \<open>advance\<close>, and the closing lines; and the entry of a character whose reported width is
  \<open>w\<close> has \<open>H * ceil (w / 8)\<close> bytes (none when \<open>H\<close> or \<open>w\<close> is not positive), also when
  \<open>H\<close> or \<open>w\<close> exceeds 100. When \<open>w = rx + rw \<le> 100\<close> and \<open>H \<le> 100\<close>, the scan of the glyph
  reads only pixels inside the image: two hosts with the same metrics whose images agree
  inside the 100 by 100 pixels give the same bytes.
\<close>

theorem no_overflow_check:
  "(fopen filename \<longrightarrow>
      saveButton h fopen (Some filename) =
        Written filename
         (''#[allow(dead_code)]\<newline>'' @
          ''pub const FONT: crate::screen::Font = crate::screen::Font {\<newline>'' @
          ''    height: '' @ printf_d (metrics_height h) @ '',\<newline>'' @
          ''    chars: &[\<newline>'' @
          concat (map (glyph_text h) chars) @
          ''    ],\<newline>'' @
          ''    width: &[\<newline>        '' @
          concat (map (\<lambda>i. line_break i @ printf_d (width_px h (chars ! i)) @ '','') [0..<170]) @
          ''\<newline>    ],\<newline>'' @
          ''    advance: &[\<newline>        '' @
          concat (map (\<lambda>i. line_break i @ printf_d (advance_px h (chars ! i)) @ '','') [0..<170]) @
          ''\<newline>    ],\<newline>'' @
          ''};\<newline>''))
   \<and> length (glyph_bytes h ch) =
        nat (metrics_height h) * nat \<lceil>real_of_int (width_px h ch) / 8\<rceil>
   \<and> (metrics_height h' = metrics_height h
        \<and> metrics_boundingRect h' ch = metrics_boundingRect h ch
        \<and> (\<forall>x y. in_image x y \<longrightarrow>
              image_pixel h' ch (glyph_rect h' ch) x y = image_pixel h ch (glyph_rect h ch) x y)
        \<and> width_px h ch \<le> image_width \<and> metrics_height h \<le> image_height
        \<longrightarrow> glyph_bytes h' ch = glyph_bytes h ch)"
proof (intro conjI impI)
  assume "fopen filename"
  then show "saveButton h fopen (Some filename) =
        Written filename
         (''#[allow(dead_code)]\<newline>'' @
          ''pub const FONT: crate::screen::Font = crate::screen::Font {\<newline>'' @
          ''    height: '' @ printf_d (metrics_height h) @ '',\<newline>'' @
          ''    chars: &[\<newline>'' @
          concat (map (glyph_text h) chars) @
          ''    ],\<newline>'' @
          ''    width: &[\<newline>        '' @
          concat (map (\<lambda>i. line_break i @ printf_d (width_px h (chars ! i)) @ '','') [0..<170]) @
          ''\<newline>    ],\<newline>'' @
          ''    advance: &[\<newline>        '' @
          concat (map (\<lambda>i. line_break i @ printf_d (advance_px h (chars ! i)) @ '','') [0..<170]) @
          ''\<newline>    ],\<newline>'' @
          ''};\<newline>'')"
    unfolding saveButton_def font_text_def chars_loop_map width_loop_from advance_loop_from
      length_chars
    by simp
next
  show "length (glyph_bytes h ch) =
        nat (metrics_height h) * nat \<lceil>real_of_int (width_px h ch) / 8\<rceil>"
    unfolding ceiling_div_8 by (rule length_glyph_bytes)
next
  assume a: "metrics_height h' = metrics_height h
        \<and> metrics_boundingRect h' ch = metrics_boundingRect h ch
        \<and> (\<forall>x y. in_image x y \<longrightarrow>
              image_pixel h' ch (glyph_rect h' ch) x y = image_pixel h ch (glyph_rect h ch) x y)
        \<and> width_px h ch \<le> image_width \<and> metrics_height h \<le> image_height"
  then have r: "glyph_rect h' ch = glyph_rect h ch"
    by (simp add: glyph_rect_def)
  have "y_loop (image_pixel h' ch (glyph_rect h ch)) (glyph_rect h ch) (metrics_height h) 0 =
        y_loop (image_pixel h ch (glyph_rect h ch)) (glyph_rect h ch) (metrics_height h) 0"
    using a unfolding r by (intro y_loop_inside_image) (simp_all add: glyph_rect_right)
  with a show "glyph_bytes h' ch = glyph_bytes h ch"
    by (simp add: glyph_bytes_def Let_def r)
qed

theorem no_overflow_check_witness:
  "fopen_succeeds ''font.rs''
   \<and> saveButton host_nine fopen_succeeds (Some ''font.rs'') = Written ''font.rs'' (font_text host_nine)
   \<and> length (glyph_bytes host_nine ''a'') = 2
   \<and> width_px host_nine ''a'' \<le> image_width \<and> metrics_height host_nine \<le> image_height
   \<and> image_pixel host_nine_qt ''a'' (glyph_rect host_nine_qt ''a'') 100 0
        \<noteq> image_pixel host_nine ''a'' (glyph_rect host_nine ''a'') 100 0
   \<and> glyph_bytes host_nine_qt ''a'' = glyph_bytes host_nine ''a''"
proof -
  note t = no_overflow_check [where fopen = fopen_succeeds and filename = "''font.rs''"
      and h = host_nine and h' = host_nine_qt and ch = "''a''"]
  have f: "fopen_succeeds ''font.rs''"
    by (simp add: fopen_succeeds_def)
  have H: "metrics_height host_nine = 1" and w: "width_px host_nine ''a'' = 9"
    by (simp_all add: host_nine_def mock_host_def width_px_eq QRect_xywh_def)
  have c: "nat \<lceil>real_of_int (width_px host_nine ''a'') / 8\<rceil> = 2"
    unfolding ceiling_div_8 w by simp
  have hyps: "metrics_height host_nine_qt = metrics_height host_nine
        \<and> metrics_boundingRect host_nine_qt ''a'' = metrics_boundingRect host_nine ''a''
        \<and> (\<forall>x y. in_image x y \<longrightarrow>
              image_pixel host_nine_qt ''a'' (glyph_rect host_nine_qt ''a'') x y =
              image_pixel host_nine ''a'' (glyph_rect host_nine ''a'') x y)
        \<and> width_px host_nine ''a'' \<le> image_width \<and> metrics_height host_nine \<le> image_height"
    by (simp add: host_nine_qt_def host_nine_def mock_host_def QImage_pixel_def
          width_px_eq QRect_xywh_def image_width_def image_height_def)
  have d: "image_pixel host_nine_qt ''a'' (glyph_rect host_nine_qt ''a'') 100 0
        \<noteq> image_pixel host_nine ''a'' (glyph_rect host_nine ''a'') 100 0"
    by (simp add: host_nine_qt_def host_nine_def mock_host_def QImage_pixel_def in_image_def
          image_width_def black_image_def black_def)
  have 1: "saveButton host_nine fopen_succeeds (Some ''font.rs'') =
             Written ''font.rs'' (font_text host_nine)"
    using f by (simp add: saveButton_def)
  have 2: "length (glyph_bytes host_nine ''a'') = 2"
    using t [THEN conjunct2, THEN conjunct1] unfolding c H by simp
  have 3: "glyph_bytes host_nine_qt ''a'' = glyph_bytes host_nine ''a''"
    using t [THEN conjunct2, THEN conjunct2] hyps by (rule mp)
  from f 1 2 3 d hyps show ?thesis
    by blast
qed

subsection \<open>C9: the format of the artifact\<close>

text \<open>
  C9: the entry of a glyph in \<open>chars\<close> is \<^verbatim>\<open>&[\<close>, then for every byte \<^verbatim>\<open>0x\<close>, its digits
  and a comma (after the last byte too), then \<^verbatim>\<open>],\<close>; the digits are lowercase
  hexadecimal digits that denote the byte, with no leading zero (a single \<^verbatim>\<open>0\<close> for the
  byte 0). The \<open>width\<close> and \<open>advance\<close> loops write for every entry of the repertoire its
  number in decimal and a comma, and a line break before the entries 32, 64, 96, 128 and
  160 (counting from 0), that is, after every 32 entries.
\<close>

theorem artifact_format:
  "glyph_text h ch =
     ''        &['' @ concat (map (\<lambda>v. ''0x'' @ printf_x v @ '','') (glyph_bytes h ch)) @ ''],\<newline>''
   \<and> set (printf_x v) \<subseteq> set ''0123456789abcdef''
   \<and> printf_x v \<noteq> []
   \<and> (hd (printf_x v) = CHR ''0'' \<longleftrightarrow> v = 0)
   \<and> read_digits 16 (printf_x v) = unat v
   \<and> set (printf_d i) \<subseteq> set ''-0123456789''
   \<and> read_d (printf_d i) = i
   \<and> concat (width_loop h 0) =
       concat (map (\<lambda>i. (if i \<in> {32, 64, 96, 128, 160} then ''\<newline>        '' else [])
                        @ printf_d (width_px h (chars ! i)) @ '','') [0..<length chars])
   \<and> concat (advance_loop h 0) =
       concat (map (\<lambda>i. (if i \<in> {32, 64, 96, 128, 160} then ''\<newline>        '' else [])
                        @ printf_d (advance_px h (chars ! i)) @ '','') [0..<length chars])"
proof -
  have x: "set (printf_x v) \<subseteq> set ''0123456789abcdef''"
    using set_digits [of 16 "unat v"] by (simp add: printf_x_def)
  have z: "hd (printf_x v) = CHR ''0'' \<longleftrightarrow> v = 0"
    using hd_digits [of 16 "unat v"] by (simp add: printf_x_def unat_eq_0)
  have r: "read_digits 16 (printf_x v) = unat v"
    by (simp add: printf_x_def read_digits_digits)
  have "set (digits 10 n) \<subseteq> set ''0123456789''" for n
    using set_digits [of 10 n] by simp
  then have "set (digits 10 n) \<subseteq> set ''-0123456789''" for n
    by (rule subset_trans) (simp add: subset_insertI)
  then have d: "set (printf_d i) \<subseteq> set ''-0123456789''"
    unfolding printf_d_def by (cases "i < 0") simp_all
  have w: "width_loop h 0 =
       map (\<lambda>i. (if i \<in> {32, 64, 96, 128, 160} then ''\<newline>        '' else [])
                        @ printf_d (width_px h (chars ! i)) @ '','') [0..<length chars]"
    unfolding width_loop_from by (rule map_cong) (simp_all add: line_break_iff length_chars)
  have a: "advance_loop h 0 =
       map (\<lambda>i. (if i \<in> {32, 64, 96, 128, 160} then ''\<newline>        '' else [])
                        @ printf_d (advance_px h (chars ! i)) @ '','') [0..<length chars]"
    unfolding advance_loop_from by (rule map_cong) (simp_all add: line_break_iff length_chars)
  show ?thesis
    unfolding w a using x z r d
    by (simp add: glyph_text_def digits_nonempty printf_x_def read_d_printf_d del: set_simps)
qed

theorem artifact_format_witness:
  "glyph_text host_nine ''a'' = ''        &[0xff,0x1,],\<newline>''
   \<and> printf_x 171 = ''ab''
   \<and> read_digits 16 ''ab'' = 171
   \<and> printf_d (- 12) = ''-12''
   \<and> read_d ''-12'' = - 12"
proof -
  have g: "glyph_bytes host_nine ''a'' = [255, 1]"
    by code_simp
  have x: "printf_x 255 = ''ff''" "printf_x 1 = ''1''" "printf_x 171 = ''ab''"
    by code_simp+
  have d: "printf_d (- 12) = ''-12''"
    by code_simp
  from artifact_format [of host_nine "''a''" 171 "- 12"]
  show ?thesis
    by (simp add: g x d)
qed

end
